theory Spec2Isabelle
  imports Main "HOL-Library.AList"
begin

section \<open>The XML module store of xmodule/modulestore/xml.py\<close>

text \<open>
  The development embeds \<^verbatim>\<open>XMLModuleStore\<close> and the \<^verbatim>\<open>process_xml\<close> closure of its
  \<^verbatim>\<open>ImportSystem\<close>. Python objects become records, the two mutable objects (the import
  system and the store) are passed and returned explicitly, and every \<^verbatim>\<open>raise\<close> is a
  value \<open>Inl e\<close>. A call that raises still returns the state it has reached, because
  an exception does not undo the assignments made before it.
\<close>

subsection \<open>Locations\<close>

text \<open>
  Modelled from the spec: the class \<^verbatim>\<open>Location\<close> is imported from the package
  (\<^verbatim>\<open>from . import ModuleStore, Location\<close>) and is not part of the source file. The
  spec gives it five fields, compared structurally, of which only the revision may be
  absent.
\<close>

datatype Location =
  Location (organization: string) (course: string) (category: string) (slug: string)
    (revision: "string option")

text \<open>
  Something that can be passed to \<^verbatim>\<open>Location(...)\<close>: every segment may be \<^verbatim>\<open>None\<close>.
\<close>

type_synonym location_like =
  "string option \<times> string option \<times> string option \<times> string option \<times> string option"

datatype error =
    ParseError
  | AttributeError
  | InsufficientSpecificationError
  | ItemNotFoundError Location
  | NotImplementedError string

text \<open>
  Modelled from the spec: the constructor \<^verbatim>\<open>Location(...)\<close>, which is not in the source
  file. A segment other than the revision that is \<^verbatim>\<open>None\<close> is an insufficiently
  specified location.
\<close>

fun Location_init :: "location_like \<Rightarrow> error + Location" where
  "Location_init (Some org, Some crs, Some cat, Some sl, rv) = Inr (Location org crs cat sl rv)"
| "Location_init _ = Inl InsufficientSpecificationError"

definition as_location_like :: "Location \<Rightarrow> location_like" where
  "as_location_like loc =
     (Some (organization loc), Some (course loc), Some (category loc), Some (slug loc),
      revision loc)"

subsection \<open>XML texts, descriptors, the import system and the store\<close>

text \<open>
  An XML text as \<^verbatim>\<open>etree.fromstring\<close> sees it: either it does not parse, or it is an
  element with a tag, its attributes in document order and, for each subelement, the
  text that is handed to \<^verbatim>\<open>process_xml\<close> for it. \<^verbatim>\<open>xml_data.get(k)\<close> is
  \<open>map_of attrs k\<close> and \<^verbatim>\<open>xml_data.set(k, v)\<close> is \<open>AList.update k v attrs\<close>.

  A subelement of an element that has parsed is itself well-formed in the enclosing
  text. \<open>Malformed\<close> among the subelement texts stands for a subelement whose own text
  does not parse when it is handed on by itself; with lxml, \<^verbatim>\<open>etree.tostring\<close> of an
  element includes the text that follows the element in its parent, and an element
  followed by such text is not a document. Which text is handed on is decided by the
  descriptor classes, which are not in the source file; \<^verbatim>\<open>process_xml\<close> itself
  (lines 73-77) provides for any text.
\<close>

datatype xml = Malformed | Element string "(string \<times> string) list" "xml list"

text \<open>
  Modelled from the spec: \<^verbatim>\<open>XModuleDescriptor\<close> is imported from
  \<^verbatim>\<open>xmodule.x_module\<close>. A content node has its Location, the field data taken from the
  XML attributes, and the ordered Locations of its children, which are resolved
  through the index.
\<close>

record XModuleDescriptor =
  location :: Location
  field_data :: "(string \<times> string) list"
  children :: "Location list"

text \<open>
  The two attributes \<^verbatim>\<open>ImportSystem.__init__\<close> sets (lines 69-70). The counter only
  ever grows from 0, so it is a natural number.
\<close>

record ImportSystem =
  unnamed_modules :: nat
  used_slugs :: "string set"

text \<open>The attributes \<^verbatim>\<open>XMLModuleStore.__init__\<close> sets (lines 33-43).\<close>

record XMLModuleStore =
  eager :: bool
  data_dir :: string
  modules :: "Location \<rightharpoonup> XModuleDescriptor"
  courses :: "XModuleDescriptor list"
  default_class :: "string option"

subsection \<open>Formatting the counter\<close>

text \<open>
  \<^verbatim>\<open>'{count}'.format(count=n)\<close> for a non-negative integer: its decimal digits, most
  significant first, without leading zeros. \<open>digit\<close> is only applied to numbers below
  10.
\<close>

definition digit :: "nat \<Rightarrow> char" where
  "digit d = ''0123456789'' ! d"

function decimal :: "nat \<Rightarrow> string" where
  "decimal n = (if n < 10 then [digit n] else decimal (n div 10) @ [digit (n mod 10)])"
  by pat_completeness auto
termination
  by (relation "measure (\<lambda>n. n)") auto

declare decimal.simps [simp del]

subsection \<open>Slug allocation (lines 78-90 of process_xml)\<close>

text \<open>
  Lines 79-83. \<^verbatim>\<open>if xml_data.get('name')\<close> is false for a missing attribute and for
  the empty string. \<open>clean\<close> stands for \<^verbatim>\<open>Location.clean\<close>, which is not in the source
  file and is taken as a parameter.
\<close>

definition candidate_slug ::
  "(string \<Rightarrow> string) \<Rightarrow> string \<Rightarrow> (string \<times> string) list \<Rightarrow> ImportSystem
     \<Rightarrow> string \<times> ImportSystem" where
  "candidate_slug clean tg attrs sys =
     (let synthesized =
            (tg @ ''_'' @ decimal (unnamed_modules sys + 1),
             sys\<lparr>unnamed_modules := unnamed_modules sys + 1\<rparr>)
      in case map_of attrs ''name'' of
           None \<Rightarrow> synthesized
         | Some nm \<Rightarrow> if nm \<noteq> [] then (clean nm, sys) else synthesized)"

text \<open>Lines 85-87: one test against the used slugs, one suffix.\<close>

definition avoid_collision :: "string \<Rightarrow> ImportSystem \<Rightarrow> string \<times> ImportSystem" where
  "avoid_collision sl sys =
     (if sl \<in> used_slugs sys
      then (sl @ ''_'' @ decimal (unnamed_modules sys + 1),
            sys\<lparr>unnamed_modules := unnamed_modules sys + 1\<rparr>)
      else (sl, sys))"

text \<open>
  Lines 78-90 as a whole: the attributes after the block and the import system after
  it. An element that carries a \<^verbatim>\<open>slug\<close> attribute skips the block.
\<close>

definition assign_slug ::
  "(string \<Rightarrow> string) \<Rightarrow> string \<Rightarrow> (string \<times> string) list \<Rightarrow> ImportSystem
     \<Rightarrow> (string \<times> string) list \<times> ImportSystem" where
  "assign_slug clean tg attrs sys =
     (case map_of attrs ''slug'' of
        Some _ \<Rightarrow> (attrs, sys)
      | None \<Rightarrow>
          (case candidate_slug clean tg attrs sys of
             (sl1, sys1) \<Rightarrow>
               (case avoid_collision sl1 sys1 of
                  (sl2, sys2) \<Rightarrow>
                    (AList.update ''slug'' sl2 attrs,
                     sys2\<lparr>used_slugs := insert sl2 (used_slugs sys2)\<rparr>))))"

subsection \<open>The store's read and write interface (lines 110-166)\<close>

definition get_item ::
  "XMLModuleStore \<Rightarrow> location_like \<Rightarrow> (error + XModuleDescriptor) \<times> XMLModuleStore" where
  "get_item store loc_like =
     (case Location_init loc_like of
        Inl e \<Rightarrow> (Inl e, store)
      | Inr loc \<Rightarrow>
          (case modules store loc of
             Some m \<Rightarrow> (Inr m, store)
           | None \<Rightarrow> (Inl (ItemNotFoundError loc), store)))"

definition create_item ::
  "XMLModuleStore \<Rightarrow> location_like \<Rightarrow> (error + unit) \<times> XMLModuleStore" where
  "create_item store loc_like =
     (Inl (NotImplementedError ''XMLModuleStores are read-only''), store)"

definition update_item ::
  "XMLModuleStore \<Rightarrow> location_like \<Rightarrow> 'd \<Rightarrow> (error + unit) \<times> XMLModuleStore" where
  "update_item store loc_like data =
     (Inl (NotImplementedError ''XMLModuleStores are read-only''), store)"

definition update_children ::
  "XMLModuleStore \<Rightarrow> location_like \<Rightarrow> 'c \<Rightarrow> (error + unit) \<times> XMLModuleStore" where
  "update_children store loc_like chn =
     (Inl (NotImplementedError ''XMLModuleStores are read-only''), store)"

definition update_metadata ::
  "XMLModuleStore \<Rightarrow> location_like \<Rightarrow> 'm \<Rightarrow> (error + unit) \<times> XMLModuleStore" where
  "update_metadata store loc_like metadata =
     (Inl (NotImplementedError ''XMLModuleStores are read-only''), store)"

subsection \<open>process_xml and load_course\<close>

text \<open>
  Modelled from the spec: \<^verbatim>\<open>module.get_children()\<close> belongs to the descriptor class,
  which is not in the source file. The children of a node are Locations resolved
  through the index; the import system resolves them with
  \<^verbatim>\<open>load_item=modulestore.get_item\<close> (line 101).
\<close>

fun get_children :: "XMLModuleStore \<Rightarrow> Location list \<Rightarrow> error + XModuleDescriptor list" where
  "get_children store [] = Inr []"
| "get_children store (l # ls) =
     (case fst (get_item store (as_location_like l)) of
        Inl e \<Rightarrow> Inl e
      | Inr m \<Rightarrow>
          (case get_children store ls of
             Inl e \<Rightarrow> Inl e
           | Inr ms \<Rightarrow> Inr (m # ms)))"

text \<open>
  Lines 72-97. \<open>clean\<close> is \<^verbatim>\<open>Location.clean\<close>; \<open>org\<close> and \<open>crs\<close> are the variables
  \<^verbatim>\<open>org\<close> and \<^verbatim>\<open>course\<close> of the enclosing \<^verbatim>\<open>load_course\<close>, which are \<^verbatim>\<open>None\<close> when
  the root element lacks the attribute.

  \<open>sys_eager\<close> is the value of \<^verbatim>\<open>self.eager\<close> on line 95. In \<^verbatim>\<open>process_xml\<close> the name
  \<^verbatim>\<open>self\<close> is the one bound by \<^verbatim>\<open>ImportSystem.__init__(self, modulestore)\<close> on line
  65: the import system, not the store, whose flag would be \<^verbatim>\<open>modulestore.eager\<close>.
  \<^verbatim>\<open>ImportSystem\<close> itself sets no such attribute, so its value comes from the base
  classes \<^verbatim>\<open>XMLParsingSystem\<close> and \<^verbatim>\<open>MakoDescriptorSystem\<close>, which are not in the source
  file; it is a parameter, \<open>None\<close> when the attribute does not exist (an
  \<^verbatim>\<open>AttributeError\<close>).

  Modelled from the spec: \<^verbatim>\<open>XModuleDescriptor.load_from_xml\<close> (line 92) is not in the
  source file. It constructs the Location of the node from the organization, the
  course, the tag and the slug, then the children, each by \<^verbatim>\<open>process_xml\<close> of the same
  import system, in document order, and returns the node. Resolving the tag to a
  descriptor class is taken to succeed.
\<close>

fun process_xml ::
  "(string \<Rightarrow> string) \<Rightarrow> bool option \<Rightarrow> string option \<Rightarrow> string option \<Rightarrow> xml
     \<Rightarrow> ImportSystem \<times> XMLModuleStore
     \<Rightarrow> (error + XModuleDescriptor) \<times> (ImportSystem \<times> XMLModuleStore)"
and process_children ::
  "(string \<Rightarrow> string) \<Rightarrow> bool option \<Rightarrow> string option \<Rightarrow> string option \<Rightarrow> xml list
     \<Rightarrow> ImportSystem \<times> XMLModuleStore
     \<Rightarrow> (error + Location list) \<times> (ImportSystem \<times> XMLModuleStore)"
where
  "process_xml clean sys_eager org crs Malformed st = (Inl ParseError, st)"
| "process_xml clean sys_eager org crs (Element tg attrs cs) st =
     (case assign_slug clean tg attrs (fst st) of
        (attrs', sys1) \<Rightarrow>
          (case Location_init (org, crs, Some tg, map_of attrs' ''slug'', None) of
             Inl e \<Rightarrow> (Inl e, (sys1, snd st))
           | Inr loc \<Rightarrow>
               (case process_children clean sys_eager org crs cs (sys1, snd st) of
                  (Inl e, st2) \<Rightarrow> (Inl e, st2)
                | (Inr locs, st2) \<Rightarrow>
                    (let m = \<lparr>location = loc, field_data = attrs', children = locs\<rparr>;
                         store3 = (snd st2)\<lparr>modules := (modules (snd st2))(loc \<mapsto> m)\<rparr>
                     in case sys_eager of
                          None \<Rightarrow> (Inl AttributeError, (fst st2, store3))
                        | Some b \<Rightarrow>
                            if b
                            then (case get_children store3 (children m) of
                                    Inl e \<Rightarrow> (Inl e, (fst st2, store3))
                                  | Inr _ \<Rightarrow> (Inr m, (fst st2, store3)))
                            else (Inr m, (fst st2, store3))))))"
| "process_children clean sys_eager org crs [] st = (Inr [], st)"
| "process_children clean sys_eager org crs (c # cs) st =
     (case process_xml clean sys_eager org crs c st of
        (Inl e, st1) \<Rightarrow> (Inl e, st1)
      | (Inr m, st1) \<Rightarrow>
          (case process_children clean sys_eager org crs cs st1 of
             (Inl e, st2) \<Rightarrow> (Inl e, st2)
           | (Inr locs, st2) \<Rightarrow> (Inr (location m # locs), st2)))"

text \<open>
  Lines 51-108. The argument is the content of the course's \<^verbatim>\<open>course.xml\<close> as line 60
  parses it: \<open>Malformed\<close> when the file is not well-formed XML, in whatever element
  the fault lies, so that \<^verbatim>\<open>etree.parse\<close> raises before an import system exists; the
  root element otherwise. Opening the file is left out.

  Then \<^verbatim>\<open>ImportSystem(self)\<close> is constructed. Its \<^verbatim>\<open>__init__\<close> sets the counter to 0 and
  the used slugs to the empty set (lines 69-70) and builds \<^verbatim>\<open>system_kwargs\<close> (lines
  99-104), where \<^verbatim>\<open>OSFS(self.data_dir / course_dir)\<close> reads \<^verbatim>\<open>data_dir\<close> on the import
  system: \<^verbatim>\<open>self\<close> is again the one of line 65, not the store. \<open>sys_data_dir\<close> is the
  value of that attribute as the base classes supply it, \<open>None\<close> when they do not (an
  \<^verbatim>\<open>AttributeError\<close>, raised before \<^verbatim>\<open>process_xml\<close> is ever called). The two base
  initialisers of lines 105-106 are not in the source file and are taken to return.
  Line 108 processes the root element.
\<close>

definition new_ImportSystem :: ImportSystem where
  "new_ImportSystem = \<lparr>unnamed_modules = 0, used_slugs = {}\<rparr>"

fun load_course ::
  "(string \<Rightarrow> string) \<Rightarrow> bool option \<Rightarrow> string option \<Rightarrow> XMLModuleStore \<Rightarrow> xml
     \<Rightarrow> (error + XModuleDescriptor) \<times> XMLModuleStore" where
  "load_course clean sys_eager sys_data_dir store Malformed = (Inl ParseError, store)"
| "load_course clean sys_eager sys_data_dir store (Element tg attrs cs) =
     (case sys_data_dir of
        None \<Rightarrow> (Inl AttributeError, store)
      | Some _ \<Rightarrow>
          (case process_xml clean sys_eager (map_of attrs ''org'') (map_of attrs ''course'')
                  (Element tg attrs cs) (new_ImportSystem, store) of
             (r, st) \<Rightarrow> (r, snd st)))"

subsection \<open>Vocabulary for the properties\<close>

text \<open>
  A course load hands the elements it meets, one after the other, to the slug
  allocation of one import system. \<open>assign_slugs\<close> runs lines 78-90 over such a
  sequence of elements (tag and attributes) and lists the \<^verbatim>\<open>slug\<close> attribute each
  element has afterwards.
\<close>

fun assign_slugs ::
  "(string \<Rightarrow> string) \<Rightarrow> (string \<times> (string \<times> string) list) list \<Rightarrow> ImportSystem
     \<Rightarrow> string option list \<times> ImportSystem" where
  "assign_slugs clean [] sys = ([], sys)"
| "assign_slugs clean ((tg, attrs) # es) sys =
     (case assign_slug clean tg attrs sys of
        (attrs', sys1) \<Rightarrow>
          (case assign_slugs clean es sys1 of
             (sls, sys2) \<Rightarrow> (map_of attrs' ''slug'' # sls, sys2)))"

text \<open>
  A string that ends in an underscore followed by one or more decimal digits, the
  shape of the suffix that lines 83 and 87 append.
\<close>

definition is_digit :: "char \<Rightarrow> bool" where
  "is_digit c = (c \<in> set ''0123456789'')"

definition ends_with_counter :: "string \<Rightarrow> bool" where
  "ends_with_counter s =
     (takeWhile is_digit (rev s) \<noteq> [] \<and>
      (case dropWhile is_digit (rev s) of [] \<Rightarrow> False | c # _ \<Rightarrow> c = CHR ''_''))"

text \<open>
  An element that leaves its slug to the allocator and whose name, if it has one, is
  not cleaned to a string of that shape.
\<close>

definition plain_element :: "(string \<Rightarrow> string) \<Rightarrow> string \<times> (string \<times> string) list \<Rightarrow> bool" where
  "plain_element clean e =
     (map_of (snd e) ''slug'' = None \<and>
      (case map_of (snd e) ''name'' of
         None \<Rightarrow> True
       | Some nm \<Rightarrow> nm = [] \<or> \<not> ends_with_counter (clean nm)))"

text \<open>
  The Locations that \<open>process_xml\<close> constructs for the elements of a text, the root
  first and the subelements in document order, each from the state in which
  \<open>process_xml\<close> reaches it. A text that does not parse has none.
\<close>

fun node_locations ::
  "(string \<Rightarrow> string) \<Rightarrow> bool option \<Rightarrow> string option \<Rightarrow> string option \<Rightarrow> xml
     \<Rightarrow> ImportSystem \<times> XMLModuleStore \<Rightarrow> Location list"
and forest_locations ::
  "(string \<Rightarrow> string) \<Rightarrow> bool option \<Rightarrow> string option \<Rightarrow> string option \<Rightarrow> xml list
     \<Rightarrow> ImportSystem \<times> XMLModuleStore \<Rightarrow> Location list"
where
  "node_locations clean sys_eager org crs Malformed st = []"
| "node_locations clean sys_eager org crs (Element tg attrs cs) st =
     (case assign_slug clean tg attrs (fst st) of
        (attrs', sys1) \<Rightarrow>
          (case Location_init (org, crs, Some tg, map_of attrs' ''slug'', None) of
             Inl e \<Rightarrow> []
           | Inr loc \<Rightarrow> loc # forest_locations clean sys_eager org crs cs (sys1, snd st)))"
| "forest_locations clean sys_eager org crs [] st = []"
| "forest_locations clean sys_eager org crs (c # cs) st =
     node_locations clean sys_eager org crs c st @
     forest_locations clean sys_eager org crs cs (snd (process_xml clean sys_eager org crs c st))"

fun course_locations ::
  "(string \<Rightarrow> string) \<Rightarrow> bool option \<Rightarrow> XMLModuleStore \<Rightarrow> xml \<Rightarrow> Location list" where
  "course_locations clean sys_eager store Malformed = []"
| "course_locations clean sys_eager store (Element tg attrs cs) =
     node_locations clean sys_eager (map_of attrs ''org'') (map_of attrs ''course'')
       (Element tg attrs cs) (new_ImportSystem, store)"

text \<open>
  The elements of a text, as tag and attributes, the root first and the subelements in
  document order; and the texts in which every subelement parses.
\<close>

fun elements :: "xml \<Rightarrow> (string \<times> (string \<times> string) list) list"
and elements_list :: "xml list \<Rightarrow> (string \<times> (string \<times> string) list) list"
where
  "elements Malformed = []"
| "elements (Element tg attrs cs) = (tg, attrs) # elements_list cs"
| "elements_list [] = []"
| "elements_list (c # cs) = elements c @ elements_list cs"


text \<open>
  The writes of line 93 that a call of \<open>process_xml\<close> makes, in the order in which
  they are made: those of the subelements first, then, when all subelements have
  been processed, the one of the element itself. A subelement that fails ends the
  list.
\<close>

fun registered ::
  "(string \<Rightarrow> string) \<Rightarrow> bool option \<Rightarrow> string option \<Rightarrow> string option \<Rightarrow> xml
     \<Rightarrow> ImportSystem \<times> XMLModuleStore \<Rightarrow> (Location \<times> XModuleDescriptor) list"
and registered_list ::
  "(string \<Rightarrow> string) \<Rightarrow> bool option \<Rightarrow> string option \<Rightarrow> string option \<Rightarrow> xml list
     \<Rightarrow> ImportSystem \<times> XMLModuleStore \<Rightarrow> (Location \<times> XModuleDescriptor) list"
where
  "registered clean sys_eager org crs Malformed st = []"
| "registered clean sys_eager org crs (Element tg attrs cs) st =
     (case assign_slug clean tg attrs (fst st) of
        (attrs', sys1) \<Rightarrow>
          (case Location_init (org, crs, Some tg, map_of attrs' ''slug'', None) of
             Inl e \<Rightarrow> []
           | Inr loc \<Rightarrow>
               registered_list clean sys_eager org crs cs (sys1, snd st) @
               (case fst (process_children clean sys_eager org crs cs (sys1, snd st)) of
                  Inl e \<Rightarrow> []
                | Inr locs \<Rightarrow>
                    [(loc, \<lparr>location = loc, field_data = attrs', children = locs\<rparr>)])))"
| "registered_list clean sys_eager org crs [] st = []"
| "registered_list clean sys_eager org crs (c # cs) st =
     registered clean sys_eager org crs c st @
     (case fst (process_xml clean sys_eager org crs c st) of
        Inl e \<Rightarrow> []
      | Inr m \<Rightarrow>
          registered_list clean sys_eager org crs cs
            (snd (process_xml clean sys_eager org crs c st)))"


text \<open>The index holds, under a Location, a node that carries this Location.\<close>

definition holds_node :: "XMLModuleStore \<Rightarrow> Location \<Rightarrow> bool" where
  "holds_node store l = (case modules store l of None \<Rightarrow> False | Some d \<Rightarrow> location d = l)"

text \<open>
  A store as lines 33-43 leave it, before any course is loaded. The loop of lines
  45-49 calls \<^verbatim>\<open>load_course\<close> once for each course directory.
\<close>

definition new_store :: "string \<Rightarrow> string option \<Rightarrow> bool \<Rightarrow> XMLModuleStore" where
  "new_store dir cls eag =
     \<lparr>eager = eag, data_dir = dir, modules = Map.empty, courses = [], default_class = cls\<rparr>"

subsection \<open>Example courses\<close>

text \<open>
  A small course: the root and a chapter are named, two \<^verbatim>\<open>html\<close> elements are not, and
  a problem has the name of the course.
\<close>

definition example_course :: xml where
  "example_course =
     Element ''course'' [(''org'', ''o''), (''course'', ''c''), (''name'', ''Demo'')]
       [Element ''chapter'' [(''name'', ''Intro'')]
          [Element ''html'' [] [], Element ''html'' [] [], Element ''problem'' [(''name'', ''Demo'')] []]]"




section \<open>Auxiliary facts\<close>

subsection \<open>Decimal numerals\<close>

lemma decimal_Suc0: "decimal (Suc 0) = ''1''" by (simp add: decimal.simps digit_def)
lemma decimal_2: "decimal (Suc (Suc 0)) = ''2''" by (simp add: decimal.simps digit_def)
lemma decimal_3: "decimal (Suc (Suc (Suc 0))) = ''3''" by (simp add: decimal.simps digit_def)

lemma digit_cases:
  assumes "d < 10"
  obtains "d = 0" | "d = 1" | "d = 2" | "d = 3" | "d = 4" | "d = 5" | "d = 6" | "d = 7" | "d = 8" | "d = (9::nat)"
proof -
  from assms have "d = 0 \<or> d = 1 \<or> d = 2 \<or> d = 3 \<or> d = 4 \<or> d = 5 \<or> d = 6 \<or> d = 7 \<or> d = 8 \<or> d = 9"
    by presburger
  with that show thesis
    by blast
qed

lemma of_char_digit: "d < 10 \<Longrightarrow> (of_char (digit d) :: nat) = 48 + d"
  by (erule digit_cases) (simp_all add: digit_def)

lemma digit_inj:
  assumes "d < 10" and "e < 10" and eq: "digit d = digit e"
  shows "d = e"
proof -
  have "48 + d = (of_char (digit d) :: nat)"
    using assms(1) by (simp only: of_char_digit)
  also have "\<dots> = of_char (digit e)"
    by (simp only: eq)
  also have "\<dots> = 48 + e"
    using assms(2) by (rule of_char_digit)
  finally show ?thesis
    by simp
qed

lemma is_digit_digit: "d < 10 \<Longrightarrow> is_digit (digit d)"
  by (erule digit_cases) (simp_all add: digit_def is_digit_def)

lemma decimal_nonempty: "decimal n \<noteq> []" "[] \<noteq> decimal n"
  by (subst decimal.simps, simp)+

lemma decimal_digits: "c \<in> set (decimal n) \<Longrightarrow> is_digit c"
proof (induction n rule: decimal.induct)
  case (1 n)
  show ?case
  proof (cases "n < 10")
    case True
    with "1.prems" show ?thesis
      by (simp add: decimal.simps [of n] is_digit_digit)
  next
    case False
    with "1.prems" have "c \<in> set (decimal (n div 10)) \<or> c = digit (n mod 10)"
      by (auto simp: decimal.simps [of n])
    moreover have "is_digit (digit (n mod 10))"
      by (simp add: is_digit_digit)
    ultimately show ?thesis
      using False "1.IH" by auto
  qed
qed

lemma decimal_inj: "decimal m = decimal n \<Longrightarrow> m = n"
proof (induction m arbitrary: n rule: decimal.induct)
  case (1 m)
  show ?case
  proof (cases "m < 10")
    case m: True
    show ?thesis
    proof (cases "n < 10")
      case True
      with m "1.prems" show ?thesis
        by (simp add: decimal.simps [of m] decimal.simps [of n] digit_inj)
    next
      case False
      with m "1.prems" show ?thesis
        by (simp add: decimal.simps [of m] decimal.simps [of n] decimal_nonempty)
    qed
  next
    case m: False
    show ?thesis
    proof (cases "n < 10")
      case True
      with m "1.prems" show ?thesis
        by (simp add: decimal.simps [of m] decimal.simps [of n] decimal_nonempty)
    next
      case False
      with m "1.prems" have eq: "decimal (m div 10) = decimal (n div 10)"
        and dg: "digit (m mod 10) = digit (n mod 10)"
        by (simp_all add: decimal.simps [of m] decimal.simps [of n])
      from "1.IH" [OF m eq] have "m div 10 = n div 10" .
      moreover from dg have "m mod 10 = n mod 10"
        by (intro digit_inj) simp_all
      ultimately show ?thesis
        by (metis div_mult_mod_eq)
    qed
  qed
qed

lemma underscore_not_digit: "\<not> is_digit CHR ''_''"
  by (simp add: is_digit_def)

lemma underscore_not_in_decimal: "CHR ''_'' \<notin> set (decimal n)"
  using decimal_digits underscore_not_digit by blast

lemma takeWhile_upto_underscore:
  "CHR ''_'' \<notin> set d \<Longrightarrow> takeWhile (\<lambda>c. c \<noteq> CHR ''_'') (d @ CHR ''_'' # r) = d"
  by (induction d) auto

lemma counter_suffix_unique:
  assumes "x @ ''_'' @ decimal m = y @ ''_'' @ decimal n"
  shows "m = n"
proof -
  from assms have "rev (x @ ''_'' @ decimal m) = rev (y @ ''_'' @ decimal n)"
    by (rule arg_cong)
  then have "rev (decimal m) @ CHR ''_'' # rev x = rev (decimal n) @ CHR ''_'' # rev y"
    by simp
  then have "takeWhile (\<lambda>c. c \<noteq> CHR ''_'') (rev (decimal m) @ CHR ''_'' # rev x) =
      takeWhile (\<lambda>c. c \<noteq> CHR ''_'') (rev (decimal n) @ CHR ''_'' # rev y)"
    by (rule arg_cong)
  then have "rev (decimal m) = rev (decimal n)"
    by (simp add: takeWhile_upto_underscore underscore_not_in_decimal)
  then show ?thesis
    by (simp add: decimal_inj)
qed

lemma ends_with_counter_suffix: "ends_with_counter (x @ ''_'' @ decimal k)"
proof -
  have "takeWhile is_digit (rev (decimal k) @ CHR ''_'' # rev x) =
      rev (decimal k) @ takeWhile is_digit (CHR ''_'' # rev x)"
    by (rule takeWhile_append2) (simp add: decimal_digits)
  then have t: "takeWhile is_digit (rev (decimal k) @ CHR ''_'' # rev x) = rev (decimal k)"
    by (simp add: underscore_not_digit)
  have "dropWhile is_digit (rev (decimal k) @ CHR ''_'' # rev x) =
      dropWhile is_digit (CHR ''_'' # rev x)"
    by (rule dropWhile_append2) (simp add: decimal_digits)
  then have d: "dropWhile is_digit (rev (decimal k) @ CHR ''_'' # rev x) = CHR ''_'' # rev x"
    by (simp add: underscore_not_digit)
  show ?thesis
    by (simp add: ends_with_counter_def t d decimal_nonempty)
qed

subsection \<open>One allocation step and a sequence of them\<close>

lemmas alloc_defs = assign_slug_def candidate_slug_def avoid_collision_def

lemma suffixed_slug_invariant:
  assumes b: "\<forall>x k. x @ ''_'' @ decimal k \<in> used \<longrightarrow> k \<le> n"
  shows "\<forall>x k. x @ ''_'' @ decimal k \<in> insert (y @ ''_'' @ decimal (Suc n)) used \<longrightarrow> k \<le> Suc n"
proof (intro allI impI)
  fix x k
  assume "x @ ''_'' @ decimal k \<in> insert (y @ ''_'' @ decimal (Suc n)) used"
  then consider "x @ ''_'' @ decimal k = y @ ''_'' @ decimal (Suc n)" | "x @ ''_'' @ decimal k \<in> used"
    by blast
  then show "k \<le> Suc n"
  proof cases
    case 1
    then have "k = Suc n"
      by (rule counter_suffix_unique)
    then show ?thesis
      by simp
  next
    case 2
    with b have "k \<le> n"
      by blast
    then show ?thesis
      by simp
  qed
qed

lemma suffixed_slug_fresh:
  assumes "\<forall>x k. x @ ''_'' @ decimal k \<in> used \<longrightarrow> k \<le> n"
  shows "y @ ''_'' @ decimal (Suc n) \<notin> used"
proof
  assume "y @ ''_'' @ decimal (Suc n) \<in> used"
  with assms have "Suc n \<le> n"
    by blast
  then show False
    by simp
qed

lemma plain_slug_invariant:
  assumes b: "\<forall>x k. x @ ''_'' @ decimal k \<in> used \<longrightarrow> k \<le> n"
      and c: "\<not> ends_with_counter c"
  shows "\<forall>x k. x @ ''_'' @ decimal k \<in> insert c used \<longrightarrow> k \<le> n"
proof (intro allI impI)
  fix x k
  assume "x @ ''_'' @ decimal k \<in> insert c used"
  moreover have "x @ ''_'' @ decimal k \<noteq> c"
    using c ends_with_counter_suffix by metis
  ultimately have "x @ ''_'' @ decimal k \<in> used"
    by blast
  with b show "k \<le> n"
    by blast
qed

lemma assign_slug_plain:
  assumes b: "\<forall>x k. x @ ''_'' @ decimal k \<in> used_slugs sys \<longrightarrow> k \<le> unnamed_modules sys"
      and p: "plain_element clean (tg, attrs)"
      and a: "assign_slug clean tg attrs sys = (attrs', sys')"
  shows "\<exists>sl. map_of attrs' ''slug'' = Some sl \<and> sl \<notin> used_slugs sys \<and>
           used_slugs sys' = insert sl (used_slugs sys) \<and>
           (\<forall>x k. x @ ''_'' @ decimal k \<in> used_slugs sys' \<longrightarrow> k \<le> unnamed_modules sys')"
proof -
  from p have ns: "map_of attrs ''slug'' = None"
    by (simp add: plain_element_def)
  let ?n = "unnamed_modules sys"
  let ?syn = "tg @ ''_'' @ decimal (Suc ?n)"
  have syn_fresh: "?syn \<notin> used_slugs sys"
    using b by (rule suffixed_slug_fresh)
  have syn_inv: "\<forall>x k. x @ ''_'' @ decimal k \<in> insert ?syn (used_slugs sys) \<longrightarrow> k \<le> Suc ?n"
    using b by (rule suffixed_slug_invariant)
  show ?thesis
  proof (cases "map_of attrs ''name''")
    case None
    with a ns syn_fresh have "attrs' = AList.update ''slug'' ?syn attrs"
      and "sys' = sys\<lparr>unnamed_modules := Suc ?n, used_slugs := insert ?syn (used_slugs sys)\<rparr>"
      by (auto simp: alloc_defs)
    with syn_fresh syn_inv show ?thesis
      by (simp add: update_conv')
  next
    case (Some nm)
    show ?thesis
    proof (cases "nm = []")
      case True
      with Some a ns syn_fresh have "attrs' = AList.update ''slug'' ?syn attrs"
        and "sys' = sys\<lparr>unnamed_modules := Suc ?n, used_slugs := insert ?syn (used_slugs sys)\<rparr>"
        by (auto simp: alloc_defs)
      with syn_fresh syn_inv show ?thesis
        by (simp add: update_conv')
    next
      case False
      with Some p have nc: "\<not> ends_with_counter (clean nm)"
        by (simp add: plain_element_def)
      show ?thesis
      proof (cases "clean nm \<in> used_slugs sys")
        case True
        let ?sl = "clean nm @ ''_'' @ decimal (Suc ?n)"
        have fresh: "?sl \<notin> used_slugs sys"
          using b by (rule suffixed_slug_fresh)
        have inv: "\<forall>x k. x @ ''_'' @ decimal k \<in> insert ?sl (used_slugs sys) \<longrightarrow> k \<le> Suc ?n"
          using b by (rule suffixed_slug_invariant)
        from True False Some a ns have "attrs' = AList.update ''slug'' ?sl attrs"
          and "sys' = sys\<lparr>unnamed_modules := Suc ?n, used_slugs := insert ?sl (used_slugs sys)\<rparr>"
          by (auto simp: alloc_defs)
        with fresh inv show ?thesis
          by (simp add: update_conv')
      next
        case nu: False
        have inv: "\<forall>x k. x @ ''_'' @ decimal k \<in> insert (clean nm) (used_slugs sys) \<longrightarrow> k \<le> ?n"
          using b nc by (rule plain_slug_invariant)
        from nu False Some a ns have "attrs' = AList.update ''slug'' (clean nm) attrs"
          and "sys' = sys\<lparr>used_slugs := insert (clean nm) (used_slugs sys)\<rparr>"
          by (auto simp: alloc_defs)
        with nu inv show ?thesis
          by (simp add: update_conv')
      qed
    qed
  qed
qed

lemma assign_slugs_plain:
  assumes "\<forall>x k. x @ ''_'' @ decimal k \<in> used_slugs sys \<longrightarrow> k \<le> unnamed_modules sys"
      and "\<forall>e \<in> set es. plain_element clean e"
      and "assign_slugs clean es sys = (sls, sys')"
  shows "distinct sls \<and> (\<forall>s \<in> set sls. \<exists>sl. s = Some sl \<and> sl \<notin> used_slugs sys)"
  using assms
proof (induction es arbitrary: sys sls sys')
  case Nil
  then show ?case
    by simp
next
  case (Cons e es)
  obtain tg attrs where e: "e = (tg, attrs)"
    by (cases e)
  obtain attrs' sys1 where a: "assign_slug clean tg attrs sys = (attrs', sys1)"
    by (cases "assign_slug clean tg attrs sys")
  obtain sls1 sys2 where r: "assign_slugs clean es sys1 = (sls1, sys2)"
    by (cases "assign_slugs clean es sys1")
  from Cons.prems(3) e a r have sls: "sls = map_of attrs' ''slug'' # sls1"
    by simp
  from Cons.prems(2) e have "plain_element clean (tg, attrs)"
    by simp
  with Cons.prems(1) a obtain sl where sl: "map_of attrs' ''slug'' = Some sl"
    and fresh: "sl \<notin> used_slugs sys"
    and used: "used_slugs sys1 = insert sl (used_slugs sys)"
    and inv: "\<forall>x k. x @ ''_'' @ decimal k \<in> used_slugs sys1 \<longrightarrow> k \<le> unnamed_modules sys1"
    using assign_slug_plain by blast
  from Cons.prems(2) have "\<forall>e \<in> set es. plain_element clean e"
    by simp
  with Cons.IH [OF inv _ r]
  have d: "distinct sls1" and f: "\<forall>s \<in> set sls1. \<exists>sl'. s = Some sl' \<and> sl' \<notin> used_slugs sys1"
    by blast+
  from f used have "Some sl \<notin> set sls1"
    by auto
  moreover from f used have "\<forall>s \<in> set sls1. \<exists>sl'. s = Some sl' \<and> sl' \<notin> used_slugs sys"
    by auto
  ultimately show ?case
    using d sl sls fresh by simp
qed

subsection \<open>Case analysis of process_xml\<close>

lemma Location_init_as_location_like [simp]: "Location_init (as_location_like l) = Inr l"
  by (cases l) (simp add: as_location_like_def)


lemma process_xml_Element:
  assumes "process_xml clean sys_eager org crs (Element tg attrs cs) st = (r, st')"
  obtains
    (insufficient) attrs' sys1 e where
      "assign_slug clean tg attrs (fst st) = (attrs', sys1)"
      "Location_init (org, crs, Some tg, map_of attrs' ''slug'', None) = Inl e"
      "r = Inl e" "st' = (sys1, snd st)"
  | (child_error) attrs' sys1 loc e where
      "assign_slug clean tg attrs (fst st) = (attrs', sys1)"
      "Location_init (org, crs, Some tg, map_of attrs' ''slug'', None) = Inr loc"
      "process_children clean sys_eager org crs cs (sys1, snd st) = (Inl e, st')"
      "r = Inl e"
  | (registered) attrs' sys1 loc locs st2 where
      "assign_slug clean tg attrs (fst st) = (attrs', sys1)"
      "Location_init (org, crs, Some tg, map_of attrs' ''slug'', None) = Inr loc"
      "process_children clean sys_eager org crs cs (sys1, snd st) = (Inr locs, st2)"
      "st' = (fst st2, (snd st2)\<lparr>modules := (modules (snd st2))
                (loc \<mapsto> \<lparr>location = loc, field_data = attrs', children = locs\<rparr>)\<rparr>)"
      "\<And>m. r = Inr m \<Longrightarrow> m = \<lparr>location = loc, field_data = attrs', children = locs\<rparr>"
proof -
  obtain attrs' sys1 where a: "assign_slug clean tg attrs (fst st) = (attrs', sys1)"
    by (cases "assign_slug clean tg attrs (fst st)")
  show thesis
  proof (cases "Location_init (org, crs, Some tg, map_of attrs' ''slug'', None)")
    case (Inl e)
    with assms a have "r = Inl e" "st' = (sys1, snd st)"
      by simp_all
    with a Inl show thesis
      by (rule insufficient)
  next
    case (Inr loc)
    obtain rs st2 where c: "process_children clean sys_eager org crs cs (sys1, snd st) = (rs, st2)"
      by (cases "process_children clean sys_eager org crs cs (sys1, snd st)")
    show thesis
    proof (cases rs)
      case (Inl e)
      with assms a Inr c have "r = Inl e" "st' = st2"
        by simp_all
      with a Inr c Inl show thesis
        by (intro child_error) simp_all
    next
      case locs: (Inr locs)
      let ?m = "\<lparr>location = loc, field_data = attrs', children = locs\<rparr>"
      from assms a Inr c locs
      have "st' = (fst st2, (snd st2)\<lparr>modules := (modules (snd st2))(loc \<mapsto> ?m)\<rparr>)"
        by (simp add: Let_def split: option.splits if_splits sum.splits)
      moreover from assms a Inr c locs have "\<And>m. r = Inr m \<Longrightarrow> m = ?m"
        by (auto simp: Let_def split: option.splits if_splits sum.splits)
      ultimately show thesis
        using a Inr c locs by (intro registered) simp_all
    qed
  qed
qed

lemma process_children_Cons:
  assumes "process_children clean sys_eager org crs (c # cs) st = (rs, st')"
  obtains
    (first_error) e where
      "process_xml clean sys_eager org crs c st = (Inl e, st')" "rs = Inl e"
  | (rest_error) m st1 e where
      "process_xml clean sys_eager org crs c st = (Inr m, st1)"
      "process_children clean sys_eager org crs cs st1 = (Inl e, st')" "rs = Inl e"
  | (all_done) m st1 locs where
      "process_xml clean sys_eager org crs c st = (Inr m, st1)"
      "process_children clean sys_eager org crs cs st1 = (Inr locs, st')"
      "rs = Inr (location m # locs)"
  using assms by (auto split: prod.splits sum.splits)

subsection \<open>What a call does to the index\<close>






lemma index_frame:
  "process_xml clean sys_eager org crs t st = (r, st') \<Longrightarrow>
     l \<notin> set (node_locations clean sys_eager org crs t st) \<Longrightarrow>
     modules (snd st') l = modules (snd st) l"
  "process_children clean sys_eager org crs ts st = (rs, st'') \<Longrightarrow>
     l \<notin> set (forest_locations clean sys_eager org crs ts st) \<Longrightarrow>
     modules (snd st'') l = modules (snd st) l"
proof (induction clean sys_eager org crs t st and clean sys_eager org crs ts st
    arbitrary: r st' and rs st'' rule: node_locations_forest_locations.induct)
  case (1 clean sys_eager org crs st)
  then show ?case by simp
next
  case (2 clean sys_eager org crs tg attrs cs st)
  from "2.prems"(1) show ?case
  proof (cases rule: process_xml_Element)
    case (insufficient attrs' sys1 e)
    then show ?thesis by simp
  next
    case (child_error attrs' sys1 loc e)
    with "2.prems"(2) have "l \<notin> set (forest_locations clean sys_eager org crs cs (sys1, snd st))"
      by simp
    with "2.IH" [OF child_error(1) [symmetric] child_error(2) child_error(3)]
    show ?thesis by simp
  next
    case (registered attrs' sys1 loc locs st2)
    with "2.prems"(2) have "l \<noteq> loc"
      and "l \<notin> set (forest_locations clean sys_eager org crs cs (sys1, snd st))"
      by simp_all
    with "2.IH" [OF registered(1) [symmetric] registered(2) registered(3)]
    show ?thesis
      unfolding registered(4) by simp
  qed
next
  case (3 clean sys_eager org crs st)
  then show ?case by simp
next
  case (4 clean sys_eager org crs c cs st)
  from "4.prems"(2) have n1: "l \<notin> set (node_locations clean sys_eager org crs c st)"
    and n2: "l \<notin> set (forest_locations clean sys_eager org crs cs
                  (snd (process_xml clean sys_eager org crs c st)))"
    by simp_all
  from "4.prems"(1) show ?case
  proof (cases rule: process_children_Cons)
    case (first_error e)
    from "4.IH"(1) [OF first_error(1) n1] show ?thesis .
  next
    case (rest_error m st1 e)
    from "4.IH"(1) [OF rest_error(1) n1] have "modules (snd st1) l = modules (snd st) l" .
    with "4.IH"(2) [of _ st''] rest_error n2 show ?thesis by simp
  next
    case (all_done m st1 locs)
    from "4.IH"(1) [OF all_done(1) n1] have "modules (snd st1) l = modules (snd st) l" .
    with "4.IH"(2) [of _ st''] all_done n2 show ?thesis by simp
  qed
qed


subsection \<open>Allocation follows the document order\<close>

lemmas eval_defs = alloc_defs new_ImportSystem_def new_store_def decimal_Suc0 decimal_2 decimal_3
  update_conv' Let_def get_item_def as_location_like_def

lemma assign_slugs_append:
  "assign_slugs clean (xs @ ys) sys =
     (fst (assign_slugs clean xs sys) @ fst (assign_slugs clean ys (snd (assign_slugs clean xs sys))),
      snd (assign_slugs clean ys (snd (assign_slugs clean xs sys))))"
  by (induction xs arbitrary: sys) (auto split: prod.splits)

lemma Location_init_slug:
  "Location_init (org, crs, cat, sl, rv) = Inr loc \<Longrightarrow> sl = Some (slug loc)"
  by (cases org; cases crs; cases cat; cases sl) auto

lemma allocation_in_document_order:
  "process_xml clean sys_eager org crs t st = (Inr m, st') \<Longrightarrow>
     map (\<lambda>l. Some (slug l)) (node_locations clean sys_eager org crs t st) =
       fst (assign_slugs clean (elements t) (fst st)) \<and>
     fst st' = snd (assign_slugs clean (elements t) (fst st))"
  "process_children clean sys_eager org crs ts st = (Inr locs, st'') \<Longrightarrow>
     map (\<lambda>l. Some (slug l)) (forest_locations clean sys_eager org crs ts st) =
       fst (assign_slugs clean (elements_list ts) (fst st)) \<and>
     fst st'' = snd (assign_slugs clean (elements_list ts) (fst st))"
proof (induction clean sys_eager org crs t st and clean sys_eager org crs ts st
    arbitrary: m st' and locs st'' rule: node_locations_forest_locations.induct)
  case (1 clean sys_eager org crs st)
  then show ?case by simp
next
  case (2 clean sys_eager org crs tg attrs cs st)
  from "2.prems"(1) show ?case
  proof (cases rule: process_xml_Element)
    case (insufficient attrs' sys1 e)
    then show ?thesis by simp
  next
    case (child_error attrs' sys1 loc e)
    then show ?thesis by simp
  next
    case (registered attrs' sys1 loc ls st2)
    from "2.IH" [OF registered(1) [symmetric] registered(2) registered(3)]
    have ih: "map (\<lambda>l. Some (slug l)) (forest_locations clean sys_eager org crs cs (sys1, snd st)) =
          fst (assign_slugs clean (elements_list cs) sys1)"
      and sys: "fst st2 = snd (assign_slugs clean (elements_list cs) sys1)"
      by simp_all
    from registered(2) have sl: "map_of attrs' ''slug'' = Some (slug loc)"
      by (rule Location_init_slug)
    from registered(1,2) ih sl sys show ?thesis
      unfolding registered(4) by (simp add: split_beta)
  qed
next
  case (3 clean sys_eager org crs st)
  then show ?case by simp
next
  case (4 clean sys_eager org crs c cs st)
  from "4.prems"(1) show ?case
  proof (cases rule: process_children_Cons)
    case (first_error e)
    then show ?thesis by simp
  next
    case (rest_error m st1 e)
    then show ?thesis by simp
  next
    case (all_done m st1 ls)
    from "4.IH"(1) [OF all_done(1)]
    have a: "map (\<lambda>l. Some (slug l)) (node_locations clean sys_eager org crs c st) =
          fst (assign_slugs clean (elements c) (fst st))"
      and b: "fst st1 = snd (assign_slugs clean (elements c) (fst st))"
      by simp_all
    from "4.IH"(2) [of ls st''] all_done
    have c: "map (\<lambda>l. Some (slug l)) (forest_locations clean sys_eager org crs cs st1) =
          fst (assign_slugs clean (elements_list cs) (fst st1))"
      and d: "fst st'' = snd (assign_slugs clean (elements_list cs) (fst st1))"
      by simp_all
    from a b c d all_done(1) show ?thesis
      by (simp add: assign_slugs_append)
  qed
qed

lemma new_ImportSystem_bounded:
  "\<forall>x k. x @ ''_'' @ decimal k \<in> used_slugs new_ImportSystem \<longrightarrow> k \<le> unnamed_modules new_ImportSystem"
  by (simp add: new_ImportSystem_def)

lemma distinct_map_Some_slug:
  "distinct (map (\<lambda>l. Some (slug l)) ls) \<Longrightarrow> distinct (map slug ls)"
  by (simp add: distinct_map inj_on_def comp_def)

subsection \<open>Lookups, and loads that return\<close>


lemma holds_node_get_item:
  "holds_node store l \<Longrightarrow> \<exists>d. get_item store (as_location_like l) = (Inr d, store) \<and> location d = l"
  by (auto simp: holds_node_def get_item_def split: option.splits)






lemma example_course_loads:
  "load_course id (Some b) (Some ''data'') (new_store ''data'' None e) example_course =
     (Inr \<lparr>location = Location ''o'' ''c'' ''course'' ''Demo'' None,
          field_data = [(''org'', ''o''), (''course'', ''c''), (''name'', ''Demo''), (''slug'', ''Demo'')],
          children = [Location ''o'' ''c'' ''chapter'' ''Intro'' None]\<rparr>,
      snd (load_course id (Some b) (Some ''data'') (new_store ''data'' None e) example_course))"
  by (cases b) (simp_all add: prod_eq_iff example_course_def eval_defs)

lemma example_course_locations:
  "course_locations id (Some b) (new_store ''data'' None e) example_course =
     [Location ''o'' ''c'' ''course'' ''Demo'' None, Location ''o'' ''c'' ''chapter'' ''Intro'' None,
      Location ''o'' ''c'' ''html'' ''html_1'' None, Location ''o'' ''c'' ''html'' ''html_2'' None,
      Location ''o'' ''c'' ''problem'' ''Demo_3'' None]"
  by (cases b) (simp_all add: example_course_def eval_defs)

subsection \<open>The flags\<close>

lemma undefined_eager_raises:
  "fst (process_xml clean None org crs t st) \<noteq> Inr m"
proof (cases t)
  case Malformed
  then show ?thesis by simp
next
  case (Element tg attrs cs)
  obtain r st' where p: "process_xml clean None org crs (Element tg attrs cs) st = (r, st')"
    by (cases "process_xml clean None org crs (Element tg attrs cs) st")
  have "r \<noteq> Inr m"
  proof
    assume "r = Inr m"
    with p show False
      by (auto simp: Let_def split: prod.splits sum.splits)
  qed
  with p Element show ?thesis
    by (simp del: process_xml.simps)
qed

lemma undefined_data_dir_raises:
  "load_course clean sys_eager None store (Element tg attrs cs) = (Inl AttributeError, store)"
  by simp

lemma load_course_cases:
  assumes "load_course clean sys_eager sys_data_dir store doc = (r, store')"
  obtains
    (unparsed) "doc = Malformed" "r = Inl ParseError" "store' = store"
  | (no_data_dir) tg attrs cs where
      "doc = Element tg attrs cs" "sys_data_dir = None" "r = Inl AttributeError" "store' = store"
  | (processed) tg attrs cs d st' where
      "doc = Element tg attrs cs" "sys_data_dir = Some d"
      "process_xml clean sys_eager (map_of attrs ''org'') (map_of attrs ''course'')
         (Element tg attrs cs) (new_ImportSystem, store) = (r, st')"
      "store' = snd st'"
proof (cases doc)
  case Malformed
  with assms show thesis
    by (intro unparsed) simp_all
next
  case (Element tg attrs cs)
  show thesis
  proof (cases sys_data_dir)
    case None
    with assms Element show thesis
      by (intro no_data_dir) (simp_all del: process_xml.simps)
  next
    case (Some d)
    obtain r0 st' where p: "process_xml clean sys_eager (map_of attrs ''org'') (map_of attrs ''course'')
        (Element tg attrs cs) (new_ImportSystem, store) = (r0, st')"
      by (cases "process_xml clean sys_eager (map_of attrs ''org'') (map_of attrs ''course'')
        (Element tg attrs cs) (new_ImportSystem, store)")
    with assms Element Some have "r = r0" "store' = snd st'"
      by (simp_all del: process_xml.simps)
    with Element Some p show thesis
      by (intro processed) simp_all
  qed
qed




subsection \<open>The index after a call, exactly\<close>




lemma registered_keys:
  "(l, m) \<in> set (registered clean sys_eager org crs t st) \<Longrightarrow> location m = l"
  "(l, m) \<in> set (registered_list clean sys_eager org crs ts st) \<Longrightarrow> location m = l"
proof (induction clean sys_eager org crs t st and clean sys_eager org crs ts st
    rule: node_locations_forest_locations.induct)
  case (1 clean sys_eager org crs st)
  then show ?case by simp
next
  case (2 clean sys_eager org crs tg attrs cs st)
  obtain attrs' sys1 where a: "assign_slug clean tg attrs (fst st) = (attrs', sys1)"
    by (cases "assign_slug clean tg attrs (fst st)")
  show ?case
  proof (cases "Location_init (org, crs, Some tg, map_of attrs' ''slug'', None)")
    case (Inl e)
    with a "2.prems" show ?thesis by simp
  next
    case (Inr loc)
    from "2.prems" a Inr
    consider "(l, m) \<in> set (registered_list clean sys_eager org crs cs (sys1, snd st))"
      | "l = loc" "location m = loc"
      by (auto split: sum.splits)
    then show ?thesis
    proof cases
      case 1
      with "2.IH" [OF a [symmetric] Inr] show ?thesis by simp
    next
      case 2
      then show ?thesis by simp
    qed
  qed
next
  case (3 clean sys_eager org crs st)
  then show ?case by simp
next
  case (4 clean sys_eager org crs c cs st)
  from "4.prems"
  consider "(l, m) \<in> set (registered clean sys_eager org crs c st)"
    | "(l, m) \<in> set (registered_list clean sys_eager org crs cs
          (snd (process_xml clean sys_eager org crs c st)))"
    by (auto split: sum.splits)
  then show ?case
    using "4.IH" by cases simp_all
qed



subsection \<open>The index after a load\<close>







subsection \<open>The example courses, evaluated\<close>





section \<open>The claims\<close>

text \<open>
  C1, as amended. An element that carries a \<^verbatim>\<open>slug\<close> attribute keeps it and bypasses
  the allocator, so such slugs may repeat. For the other elements: when one import
  system, starting from counter 0 and no used slug, allocates the slugs of a sequence
  of elements none of which has a \<^verbatim>\<open>slug\<close> attribute and none of whose names is cleaned
  to a string ending in an underscore and digits, the allocated slugs are pairwise
  distinct. In a course load that returns, the sequence is that of the elements of
  the course in document order, and the Locations constructed for them are pairwise
  distinct.
\<close>

theorem allocated_slugs_distinct:
  assumes "\<forall>e \<in> set es. plain_element clean e"
  shows "distinct (fst (assign_slugs clean es new_ImportSystem)) \<and>
         (load_course clean sys_eager sys_data_dir store doc = (Inr root, store') \<longrightarrow>
          es = elements doc \<longrightarrow>
            distinct (map slug (course_locations clean sys_eager store doc)) \<and>
            distinct (course_locations clean sys_eager store doc))"
proof -
  have flat: "distinct (fst (assign_slugs clean es new_ImportSystem))"
    using assign_slugs_plain [OF new_ImportSystem_bounded assms, of "fst (assign_slugs clean es new_ImportSystem)"
        "snd (assign_slugs clean es new_ImportSystem)"]
    by simp
  have "distinct (map slug (course_locations clean sys_eager store doc)) \<and>
        distinct (course_locations clean sys_eager store doc)"
    if l: "load_course clean sys_eager sys_data_dir store doc = (Inr root, store')"
      and e: "es = elements doc"
    using l
  proof (cases rule: load_course_cases)
    case (processed tg attrs cs d st')
    from allocation_in_document_order(1) [OF processed(3)] flat e processed(1)
    have "distinct (map (\<lambda>l. Some (slug l)) (course_locations clean sys_eager store doc))"
      by simp
    then have "distinct (map slug (course_locations clean sys_eager store doc))"
      by (rule distinct_map_Some_slug)
    then show ?thesis
      by (simp add: distinct_map)
  qed simp_all
  with flat show ?thesis
    by blast
qed

text \<open>The example course satisfies the hypothesis; its five slugs differ.\<close>

theorem allocated_slugs_distinct_witness:
  "distinct (fst (assign_slugs id (elements example_course) new_ImportSystem)) \<and>
   distinct (map slug (course_locations id (Some False) (new_store ''data'' None False) example_course))"
proof -
  have h: "\<forall>e \<in> set (elements example_course). plain_element id e"
    by (simp add: example_course_def plain_element_def ends_with_counter_def is_digit_def)
  from allocated_slugs_distinct [OF h] example_course_loads [of False False] show ?thesis
    by blast
qed

text \<open>
  C1 as stated fails: two \<^verbatim>\<open>html\<close> elements of one load with the same explicit slug
  get the same slug, and so the same Location.
\<close>

theorem duplicate_explicit_slugs:
  "\<not> distinct (fst (assign_slugs id [(''html'', [(''slug'', ''intro'')]),
                       (''html'', [(''slug'', ''intro''), (''name'', ''Second'')])] new_ImportSystem)) \<and>
   fst (process_children id (Some False) (Some ''o'') (Some ''c'')
          [Element ''html'' [(''slug'', ''intro'')] [],
           Element ''html'' [(''slug'', ''intro''), (''name'', ''Second'')] []]
          (new_ImportSystem, new_store ''data'' None False)) =
     Inr [Location ''o'' ''c'' ''html'' ''intro'' None, Location ''o'' ''c'' ''html'' ''intro'' None]"
  by (simp add: eval_defs)




text \<open>
  C3, as amended. For an element with an explicit \<^verbatim>\<open>slug\<close> attribute the allocation
  block is skipped: attributes and import system are unchanged, so the value is not
  added to the used slugs. The node constructed has exactly that slug in its
  Location.
\<close>

theorem explicit_slug_kept:
  assumes "map_of attrs ''slug'' = Some s"
  shows "assign_slug clean tg attrs sys = (attrs, sys) \<and>
         (process_xml clean sys_eager org crs (Element tg attrs cs) st = (Inr m, st') \<longrightarrow>
            slug (location m) = s \<and> field_data m = attrs) \<and>
         fst (process_xml clean (Some b) (Some o1) (Some c1) (Element tg attrs []) st) =
           Inr \<lparr>location = Location o1 c1 tg s None, field_data = attrs, children = []\<rparr>"
proof -
  from assms have a: "assign_slug clean tg attrs sys = (attrs, sys)" for sys
    by (simp add: assign_slug_def)
  have "slug (location m) = s \<and> field_data m = attrs"
    if "process_xml clean sys_eager org crs (Element tg attrs cs) st = (Inr m, st')"
    using that
  proof (cases rule: process_xml_Element)
    case (registered attrs' sys1 loc locs st2)
    from registered(1) a have "attrs' = attrs" by simp
    with registered(2) assms have "slug loc = s"
      by (cases org; cases crs) auto
    with registered(5) \<open>attrs' = attrs\<close> show ?thesis by simp
  qed simp_all
  moreover have "fst (process_xml clean (Some b) (Some o1) (Some c1) (Element tg attrs []) st) =
      Inr \<lparr>location = Location o1 c1 tg s None, field_data = attrs, children = []\<rparr>"
    using assms by (simp add: a Let_def)
  ultimately show ?thesis
    using a by blast
qed

text \<open>The element \<^verbatim>\<open><html slug="foo"/>\<close>.\<close>

theorem explicit_slug_kept_witness:
  "assign_slug id ''html'' [(''slug'', ''foo'')] new_ImportSystem = ([(''slug'', ''foo'')], new_ImportSystem) \<and>
   fst (process_xml id (Some True) (Some ''o'') (Some ''c'') (Element ''html'' [(''slug'', ''foo'')] [])
          (new_ImportSystem, new_store ''data'' None True)) =
     Inr \<lparr>location = Location ''o'' ''c'' ''html'' ''foo'' None, field_data = [(''slug'', ''foo'')],
          children = []\<rparr>"
proof -
  have "map_of [(''slug'', ''foo'')] ''slug'' = Some ''foo''"
    by simp
  from explicit_slug_kept [OF this, where clean = id and tg = "''html''" and sys = new_ImportSystem
      and b = True and ?o1.0 = "''o''" and ?c1.0 = "''c''"
      and st = "(new_ImportSystem, new_store ''data'' None True)"]
  show ?thesis
    by blast
qed

text \<open>
  C3 as stated fails in its second half: after \<^verbatim>\<open><html slug="foo"/>\<close> has been
  processed, \<^verbatim>\<open>foo\<close> is not among the used slugs.
\<close>

theorem explicit_slug_not_recorded:
  "fst (process_xml id (Some False) (Some ''o'') (Some ''c'') (Element ''html'' [(''slug'', ''foo'')] [])
          (new_ImportSystem, new_store ''data'' None False)) =
     Inr \<lparr>location = Location ''o'' ''c'' ''html'' ''foo'' None, field_data = [(''slug'', ''foo'')],
          children = []\<rparr> \<and>
   ''foo'' \<notin> used_slugs (fst (snd (process_xml id (Some False) (Some ''o'') (Some ''c'')
          (Element ''html'' [(''slug'', ''foo'')] []) (new_ImportSystem, new_store ''data'' None False))))"
  by (simp add: eval_defs)

text \<open>
  C4 at its failing input. Three \<^verbatim>\<open>problem\<close> elements named \<^verbatim>\<open>a\<close>, \<^verbatim>\<open>a_1\<close> and \<^verbatim>\<open>a\<close>
  (with a cleaning function that leaves these names as they are): the first two get
  the slugs \<^verbatim>\<open>a\<close> and \<^verbatim>\<open>a_1\<close>; for the third, the candidate \<^verbatim>\<open>a\<close> is used, the
  counter goes to 1, and the slug \<^verbatim>\<open>a_1\<close> is emitted without a second test although it
  is used. The second and third node get the same Location.
\<close>

theorem collision_suffix_not_rechecked:
  "assign_slugs id [(''problem'', [(''name'', ''a'')]), (''problem'', [(''name'', ''a_1'')])]
     new_ImportSystem =
     ([Some ''a'', Some ''a_1''], \<lparr>unnamed_modules = 0, used_slugs = {''a'', ''a_1''}\<rparr>) \<and>
   avoid_collision ''a'' \<lparr>unnamed_modules = 0, used_slugs = {''a'', ''a_1''}\<rparr> =
     (''a_1'', \<lparr>unnamed_modules = 1, used_slugs = {''a'', ''a_1''}\<rparr>) \<and>
   ''a_1'' \<in> used_slugs \<lparr>unnamed_modules = 0, used_slugs = {''a'', ''a_1''}\<rparr> \<and>
   fst (process_children id (Some False) (Some ''o'') (Some ''c'')
          [Element ''problem'' [(''name'', ''a'')] [], Element ''problem'' [(''name'', ''a_1'')] [],
           Element ''problem'' [(''name'', ''a'')] []]
          (new_ImportSystem, new_store ''data'' None False)) =
     Inr [Location ''o'' ''c'' ''problem'' ''a'' None, Location ''o'' ''c'' ''problem'' ''a_1'' None,
          Location ''o'' ''c'' ''problem'' ''a_1'' None]"
  by (simp add: eval_defs insert_commute)




text \<open>
  C6. Each of \<^verbatim>\<open>create_item\<close>, \<^verbatim>\<open>update_item\<close>, \<^verbatim>\<open>update_children\<close> and
  \<^verbatim>\<open>update_metadata\<close> raises the read-only error, for every store and every argument,
  and returns the store as it was. The Python exception is \<^verbatim>\<open>NotImplementedError\<close> with
  the message "XMLModuleStores are read-only".
\<close>

theorem mutations_raise_read_only:
  "create_item store l1 = (Inl (NotImplementedError ''XMLModuleStores are read-only''), store) \<and>
   update_item store l2 d = (Inl (NotImplementedError ''XMLModuleStores are read-only''), store) \<and>
   update_children store l3 c = (Inl (NotImplementedError ''XMLModuleStores are read-only''), store) \<and>
   update_metadata store l4 m = (Inl (NotImplementedError ''XMLModuleStores are read-only''), store)"
  by (simp add: create_item_def update_item_def update_children_def update_metadata_def)

text \<open>The four calls on a new store.\<close>

theorem mutations_raise_read_only_witness:
  "create_item (new_store ''data'' None True) (Some ''o'', Some ''c'', Some ''html'', Some ''a'', None) =
     (Inl (NotImplementedError ''XMLModuleStores are read-only''), new_store ''data'' None True) \<and>
   update_item (new_store ''data'' None True) (None, None, None, None, None) ''text'' =
     (Inl (NotImplementedError ''XMLModuleStores are read-only''), new_store ''data'' None True) \<and>
   update_children (new_store ''data'' None True) (Some ''o'', Some ''c'', Some ''html'', Some ''a'', None)
       [Location ''o'' ''c'' ''html'' ''b'' None] =
     (Inl (NotImplementedError ''XMLModuleStores are read-only''), new_store ''data'' None True) \<and>
   update_metadata (new_store ''data'' None True) (Some ''o'', Some ''c'', Some ''html'', Some ''a'', None)
       [(''display_name'', ''A'')] =
     (Inl (NotImplementedError ''XMLModuleStores are read-only''), new_store ''data'' None True)"
  by (rule mutations_raise_read_only)




text \<open>
  C8. From a new import system, two \<^verbatim>\<open>html\<close> elements with neither a \<^verbatim>\<open>slug\<close> nor a
  \<^verbatim>\<open>name\<close> attribute get the slugs \<^verbatim>\<open>html_1\<close> and \<^verbatim>\<open>html_2\<close>, the counter being 2
  afterwards; processed as siblings they get the Locations with these slugs.
\<close>

theorem unnamed_siblings_synthesized:
  assumes "map_of attrs1 ''slug'' = None" "map_of attrs1 ''name'' = None"
      and "map_of attrs2 ''slug'' = None" "map_of attrs2 ''name'' = None"
  shows "assign_slugs clean [(''html'', attrs1), (''html'', attrs2)] new_ImportSystem =
           ([Some ''html_1'', Some ''html_2''],
            \<lparr>unnamed_modules = 2, used_slugs = {''html_1'', ''html_2''}\<rparr>) \<and>
         fst (process_children clean (Some b) (Some org) (Some crs)
                [Element ''html'' attrs1 [], Element ''html'' attrs2 []] (new_ImportSystem, store)) =
           Inr [Location org crs ''html'' ''html_1'' None, Location org crs ''html'' ''html_2'' None]"
  using assms by (auto simp: eval_defs)

text \<open>Two \<^verbatim>\<open>html\<close> elements without any attribute.\<close>

theorem unnamed_siblings_synthesized_witness:
  "assign_slugs id [(''html'', []), (''html'', [])] new_ImportSystem =
     ([Some ''html_1'', Some ''html_2''],
      \<lparr>unnamed_modules = 2, used_slugs = {''html_1'', ''html_2''}\<rparr>) \<and>
   fst (process_children id (Some False) (Some ''o'') (Some ''c'')
          [Element ''html'' [] [], Element ''html'' [] []]
          (new_ImportSystem, new_store ''data'' None False)) =
     Inr [Location ''o'' ''c'' ''html'' ''html_1'' None, Location ''o'' ''c'' ''html'' ''html_2'' None]"
  using unnamed_siblings_synthesized [of "[]" "[]" id False "''o''" "''c''" "new_store ''data'' None False"]
  by simp

text \<open>
  C9. \<^verbatim>\<open>get_item\<close> only observes: whether it returns a node or raises, the store it
  leaves is the store it was given, for every store and every location argument.
\<close>

theorem get_item_observation_only:
  "snd (get_item store loc_like) = store"
  by (simp add: get_item_def split: sum.splits option.splits)

text \<open>A lookup with a missing segment, which raises.\<close>

theorem get_item_observation_only_witness:
  "snd (get_item (new_store ''data'' None False) (Some ''o'', Some ''c'', Some ''html'', None, None)) =
     new_store ''data'' None False"
  by (rule get_item_observation_only)

text \<open>
  C10. An element without a \<^verbatim>\<open>slug\<close> attribute whose \<^verbatim>\<open>name\<close> attribute is the empty
  string is treated as unnamed: the candidate is the tag, an underscore and the
  incremented counter, whatever the cleaning function, and the slug assigned is this
  candidate, or this candidate with one more suffix when it is already used.
\<close>

theorem empty_name_is_unnamed:
  assumes "map_of attrs ''slug'' = None" and "map_of attrs ''name'' = Some []"
  shows "candidate_slug clean tg attrs sys =
           (tg @ ''_'' @ decimal (unnamed_modules sys + 1),
            sys\<lparr>unnamed_modules := unnamed_modules sys + 1\<rparr>) \<and>
         map_of (fst (assign_slug clean tg attrs sys)) ''slug'' =
           Some (if tg @ ''_'' @ decimal (unnamed_modules sys + 1) \<in> used_slugs sys
                 then tg @ ''_'' @ decimal (unnamed_modules sys + 1) @ ''_'' @
                        decimal (unnamed_modules sys + 2)
                 else tg @ ''_'' @ decimal (unnamed_modules sys + 1))"
  using assms by (simp add: alloc_defs Let_def update_conv')

text \<open>The element \<^verbatim>\<open><html name=""/>\<close> in a new import system.\<close>

theorem empty_name_is_unnamed_witness:
  "candidate_slug id ''html'' [(''name'', '''')] new_ImportSystem =
     (''html_1'', \<lparr>unnamed_modules = 1, used_slugs = {}\<rparr>) \<and>
   map_of (fst (assign_slug id ''html'' [(''name'', '''')] new_ImportSystem)) ''slug'' = Some ''html_1''"
  using empty_name_is_unnamed [of "[(''name'', '''')]" id "''html''" new_ImportSystem]
  by (simp add: new_ImportSystem_def decimal_Suc0)

end
